theory Spec2Isabelle
  imports Complex_Main "HOL-Library.Sublist"
begin

section \<open>Truss model of \<open>Truss_stem.py\<close>\<close>

text \<open>
  Python floats are read as real numbers throughout: the arithmetic of \<open>Position\<close> is exact,
  \<open>math.pi\<close> is \<open>pi\<close> and \<open>math.acos\<close> is \<open>arccos\<close> on its domain. Strings are lists of
  characters with code points below 256. An attribute that may hold \<open>None\<close> is an option.
\<close>

subsection \<open>Exceptions\<close>

datatype error = AttributeError | IndexError | TypeError | ValueError | ZeroDivisionError

subsection \<open>Position\<close>

record Position =
  pos_x :: real
  pos_y :: real
  pos_z :: real

text \<open>\<open>Position()\<close>: all three components default to 0.0.\<close>

definition Position_init :: Position where
  "Position_init = \<lparr>pos_x = 0, pos_y = 0, pos_z = 0\<rparr>"

text \<open>\<open>__eq__\<close>: component by component, in the order x, y, z.\<close>

definition Position_eq :: "Position \<Rightarrow> Position \<Rightarrow> bool" where
  "Position_eq a b =
     (if pos_x a \<noteq> pos_x b then False
      else if pos_y a \<noteq> pos_y b then False
      else if pos_z a \<noteq> pos_z b then False
      else True)"

text \<open>\<open>__sub__\<close> returns a new position.\<close>

definition Position_sub :: "Position \<Rightarrow> Position \<Rightarrow> Position" where
  "Position_sub a b =
     \<lparr>pos_x = pos_x a - pos_x b, pos_y = pos_y a - pos_y b, pos_z = pos_z a - pos_z b\<rparr>"

text \<open>
  \<open>__idiv__\<close> with a float argument: the three in-place divisions; the first one raises
  \<open>ZeroDivisionError\<close> when the divisor is zero.
\<close>

definition idiv :: "Position \<Rightarrow> real \<Rightarrow> error + Position" where
  "idiv p other =
     (if other = 0 then Inl ZeroDivisionError
      else Inr \<lparr>pos_x = pos_x p / other, pos_y = pos_y p / other, pos_z = pos_z p / other\<rparr>)"

text \<open>\<open>mag\<close>: \<open>(x ** 2 + y ** 2 + z ** 2) ** 0.5\<close>.\<close>

definition mag :: "Position \<Rightarrow> real" where
  "mag p = sqrt ((pos_x p)\<^sup>2 + (pos_y p)\<^sup>2 + (pos_z p)\<^sup>2)"

text \<open>\<open>normalize\<close>: returns at once when the magnitude is not positive, else calls \<open>__idiv__\<close>.\<close>

definition normalize :: "Position \<Rightarrow> error + Position" where
  "normalize p = (let l = mag p in if l \<le> 0 then Inr p else idiv p l)"

text \<open>\<open>math.acos\<close> raises \<open>ValueError\<close> outside of the interval from -1 to 1.\<close>

definition math_acos :: "real \<Rightarrow> error + real" where
  "math_acos v = (if - 1 \<le> v \<and> v \<le> 1 then Inr (arccos v) else Inl ValueError)"

definition getAngleRad :: "Position \<Rightarrow> error + real" where
  "getAngleRad p =
     (let l = mag p in
      if l \<le> 0 then Inr 0
      else if pos_y p \<ge> 0 then math_acos (pos_x p / l)
      else (case math_acos (pos_x p / l) of
              Inl e \<Rightarrow> Inl e
            | Inr a \<Rightarrow> Inr (2 * pi - a)))"

subsection \<open>Material, Node, Link, TrussModel\<close>

record Material =
  uts :: "real option"
  ys :: "real option"
  mat_E :: "real option"
  staticFactor :: "real option"

definition Material_init :: Material where
  "Material_init = \<lparr>uts = None, ys = None, mat_E = None, staticFactor = None\<rparr>"

record Node =
  node_name :: string
  position :: Position

record Link =
  link_name :: string
  node1_Name :: string
  node2_Name :: string
  link_length :: "real option"
  angleRad :: "real option"

text \<open>
  \<open>Link.__init__(name, node1, node2, length, angleRad)\<close>: the body assigns the empty string
  to the name and \<open>None\<close> to the length and the angle, whatever the arguments are.
\<close>

definition Link_init :: "string \<Rightarrow> string \<Rightarrow> string \<Rightarrow> real option \<Rightarrow> real option \<Rightarrow> Link" where
  "Link_init name node1 node2 len ang =
     \<lparr>link_name = [], node1_Name = node1, node2_Name = node2,
      link_length = None, angleRad = None\<rparr>"

text \<open>\<open>Link.__eq__\<close>: four tests in sequence, each returning \<open>False\<close> on a difference.\<close>

definition Link_eq :: "Link \<Rightarrow> Link \<Rightarrow> bool" where
  "Link_eq a b =
     (if node1_Name a \<noteq> node1_Name b then False
      else if node2_Name a \<noteq> node2_Name b then False
      else if link_length a \<noteq> link_length b then False
      else if angleRad a \<noteq> angleRad b then False
      else True)"

record TrussModel =
  title :: "string option"
  links :: "Link list"
  nodes :: "Node list"
  material :: Material

definition TrussModel_init :: TrussModel where
  "TrussModel_init = \<lparr>title = None, links = [], nodes = [], material = Material_init\<rparr>"

subsection \<open>Python's string and list operations\<close>

text \<open>The white space of \<open>str.strip()\<close> and \<open>str.split()\<close> among the code points below 256.\<close>

definition isspace :: "char \<Rightarrow> bool" where
  "isspace c =
     (c \<in> set [CHR 0x09, CHR 0x0A, CHR 0x0B, CHR 0x0C, CHR 0x0D, CHR 0x1C, CHR 0x1D,
               CHR 0x1E, CHR 0x1F, CHR 0x20, CHR 0x85, CHR 0xA0])"

definition strip_chars :: "(char \<Rightarrow> bool) \<Rightarrow> string \<Rightarrow> string" where
  "strip_chars P s = rev (dropWhile P (rev (dropWhile P s)))"

text \<open>\<open>s.strip()\<close>.\<close>

definition strip :: "string \<Rightarrow> string" where
  "strip s = strip_chars isspace s"

text \<open>\<open>s.strip(cs)\<close>: the characters of \<open>cs\<close> are removed from both ends.\<close>

definition strip_of :: "string \<Rightarrow> string \<Rightarrow> string" where
  "strip_of cs s = strip_chars (\<lambda>c. c \<in> set cs) s"

text \<open>\<open>s.lower()\<close>: A to Z and the capital letters of Latin-1 move up by 32.\<close>

definition lower_char :: "char \<Rightarrow> char" where
  "lower_char c =
     (let n = (of_char c :: nat) in
      if (65 \<le> n \<and> n \<le> 90) \<or> (192 \<le> n \<and> n \<le> 222 \<and> n \<noteq> 215)
      then char_of (n + 32) else c)"

definition lower :: "string \<Rightarrow> string" where
  "lower s = map lower_char s"

text \<open>\<open>s.find(sub)\<close>: the lowest index at which \<open>sub\<close> starts in \<open>s\<close>, or -1.\<close>

fun find_from :: "nat \<Rightarrow> string \<Rightarrow> string \<Rightarrow> int" where
  "find_from i [] sub = (if sub = [] then int i else - 1)"
| "find_from i (c # cs) sub =
     (if prefix sub (c # cs) then int i else find_from (Suc i) cs sub)"

definition str_find :: "string \<Rightarrow> string \<Rightarrow> int" where
  "str_find s sub = find_from 0 s sub"

text \<open>\<open>s.split()\<close>: the maximal runs of characters that are not white space.\<close>

fun split_ws_acc :: "string \<Rightarrow> string \<Rightarrow> string list" where
  "split_ws_acc cur [] = (if cur = [] then [] else [cur])"
| "split_ws_acc cur (c # cs) =
     (if isspace c then (if cur = [] then split_ws_acc [] cs else cur # split_ws_acc [] cs)
      else split_ws_acc (cur @ [c]) cs)"

definition split_ws :: "string \<Rightarrow> string list" where
  "split_ws s = split_ws_acc [] s"

text \<open>\<open>s.split(d)\<close> for a single character \<open>d\<close>: empty fields are kept.\<close>

fun split_on_acc :: "char \<Rightarrow> string \<Rightarrow> string \<Rightarrow> string list" where
  "split_on_acc d cur [] = [cur]"
| "split_on_acc d cur (c # cs) =
     (if c = d then cur # split_on_acc d [] cs else split_on_acc d (cur @ [c]) cs)"

definition split_on :: "char \<Rightarrow> string \<Rightarrow> string list" where
  "split_on d s = split_on_acc d [] s"

text \<open>\<open>xs[i]\<close> for an index that is not negative: \<open>IndexError\<close> past the end.\<close>

definition item :: "'a list \<Rightarrow> nat \<Rightarrow> error + 'a" where
  "item xs i = (if i < length xs then Inr (xs ! i) else Inl IndexError)"

text \<open>
  \<open>float(s)\<close> is a parameter \<open>pf\<close> of the importer, \<open>None\<close> standing for its \<open>ValueError\<close>;
  \<open>'{:0.2f}'.format(v)\<close> is a parameter \<open>fmt\<close> of the report and raises \<open>TypeError\<close> on
  \<open>None\<close>.
\<close>

definition py_float :: "(string \<Rightarrow> real option) \<Rightarrow> string \<Rightarrow> error + real" where
  "py_float pf s = (case pf s of None \<Rightarrow> Inl ValueError | Some r \<Rightarrow> Inr r)"

definition format_2f :: "(real \<Rightarrow> string) \<Rightarrow> real option \<Rightarrow> error + string" where
  "format_2f fmt v = (case v of None \<Rightarrow> Inl TypeError | Some r \<Rightarrow> Inr (fmt r))"

text \<open>\<open>'{}'.format(v)\<close> for a string or \<open>None\<close>.\<close>

definition format_str :: "string option \<Rightarrow> string" where
  "format_str v = (case v of None \<Rightarrow> ''None'' | Some s \<Rightarrow> s)"

text \<open>\<open>a > b\<close> on two numbers; a comparison with \<open>None\<close> raises \<open>TypeError\<close>.\<close>

definition py_gt :: "real option \<Rightarrow> real option \<Rightarrow> error + bool" where
  "py_gt a b =
     (case a of None \<Rightarrow> Inl TypeError
      | Some u \<Rightarrow> (case b of None \<Rightarrow> Inl TypeError | Some v \<Rightarrow> Inr (u > v)))"

text \<open>
  A stand-in for \<open>float\<close> on the unsigned decimal integers, used where an example needs a
  concrete parser: it strips white space and reads a non-empty string of digits.
\<close>

definition isdigit :: "char \<Rightarrow> bool" where
  "isdigit c = (48 \<le> (of_char c :: nat) \<and> (of_char c :: nat) \<le> 57)"

definition float_digits :: "string \<Rightarrow> real option" where
  "float_digits s =
     (let t = strip s in
      if t \<noteq> [] \<and> list_all isdigit t
      then Some (real (foldl (\<lambda>a c. 10 * a + (of_char c - 48)) 0 t))
      else None)"

subsection \<open>TrussController: lookups\<close>

text \<open>\<open>hasNode\<close>: the loop returns \<open>True\<close> at the first node of that name.\<close>

fun hasNode_loop :: "Node list \<Rightarrow> string \<Rightarrow> bool" where
  "hasNode_loop [] name = False"
| "hasNode_loop (n # ns) name = (if node_name n = name then True else hasNode_loop ns name)"

definition hasNode :: "TrussModel \<Rightarrow> string \<Rightarrow> bool" where
  "hasNode t name = hasNode_loop (nodes t) name"

text \<open>\<open>getNode\<close>: the first node of that name, \<open>None\<close> when the loop ends without one.\<close>

fun getNode_loop :: "Node list \<Rightarrow> string \<Rightarrow> Node option" where
  "getNode_loop [] name = None"
| "getNode_loop (n # ns) name = (if node_name n = name then Some n else getNode_loop ns name)"

definition getNode :: "TrussModel \<Rightarrow> string \<Rightarrow> Node option" where
  "getNode t name = getNode_loop (nodes t) name"

definition addNode :: "TrussModel \<Rightarrow> Node \<Rightarrow> TrussModel" where
  "addNode t node = t\<lparr>nodes := nodes t @ [node]\<rparr>"

definition addLink :: "TrussModel \<Rightarrow> Link \<Rightarrow> TrussModel" where
  "addLink t link = t\<lparr>links := links t @ [link]\<rparr>"

subsection \<open>TrussController: the importers of one line\<close>

text \<open>
  Each importer reads \<open>data[j]\<close> and returns the updated model or the exception it raises.
  The parameter \<open>TM\<close> of the source is never used for the update and is left out.
\<close>

text \<open>\<open>importTitle\<close>: \<open>A, B, C = parts[1:4]\<close> needs exactly three tokens in the slice.\<close>

definition importTitle :: "string list \<Rightarrow> nat \<Rightarrow> TrussModel \<Rightarrow> error + TrussModel" where
  "importTitle data j t =
     (case item data j of Inl e \<Rightarrow> Inl e
      | Inr line \<Rightarrow>
          (case take 3 (drop 1 (split_ws (strip line))) of
             [A, B, C] \<Rightarrow>
               Inr (t\<lparr>title := Some (strip_of [CHR 0x27] (A @ '' '' @ B @ '' '' @ C))\<rparr>)
           | _ \<Rightarrow> Inl ValueError))"

text \<open>\<open>float(parts[i].strip(','))\<close>.\<close>

definition float_token :: "(string \<Rightarrow> real option) \<Rightarrow> string list \<Rightarrow> nat \<Rightarrow> error + real" where
  "float_token pf parts i =
     (case item parts i of Inl e \<Rightarrow> Inl e | Inr s \<Rightarrow> py_float pf (strip_of '','' s))"

definition importMaterial ::
  "(string \<Rightarrow> real option) \<Rightarrow> string list \<Rightarrow> nat \<Rightarrow> TrussModel \<Rightarrow> error + TrussModel" where
  "importMaterial pf data j t =
     (case item data j of Inl e \<Rightarrow> Inl e
      | Inr line \<Rightarrow>
          (let parts = split_ws (strip line) in
           case float_token pf parts 1 of Inl e \<Rightarrow> Inl e
           | Inr u \<Rightarrow>
               (case float_token pf parts 2 of Inl e \<Rightarrow> Inl e
                | Inr y \<Rightarrow>
                    (case float_token pf parts 3 of Inl e \<Rightarrow> Inl e
                     | Inr m \<Rightarrow>
                         Inr (t\<lparr>material :=
                                (material t)\<lparr>uts := Some u, ys := Some y, mat_E := Some m\<rparr>\<rparr>)))))"

definition importSF ::
  "(string \<Rightarrow> real option) \<Rightarrow> string list \<Rightarrow> nat \<Rightarrow> TrussModel \<Rightarrow> error + TrussModel" where
  "importSF pf data j t =
     (case item data j of Inl e \<Rightarrow> Inl e
      | Inr line \<Rightarrow>
          (case float_token pf (split_ws (strip line)) 1 of Inl e \<Rightarrow> Inl e
           | Inr f \<Rightarrow> Inr (t\<lparr>material := (material t)\<lparr>staticFactor := Some f\<rparr>\<rparr>)))"

text \<open>\<open>parts[i].strip(',')\<close>.\<close>

definition name_token :: "string list \<Rightarrow> nat \<Rightarrow> error + string" where
  "name_token parts i =
     (case item parts i of Inl e \<Rightarrow> Inl e | Inr s \<Rightarrow> Inr (strip_of '','' s))"

text \<open>The loop of \<open>importLink\<close> over the links: \<open>run\<close> becomes \<open>False\<close> at a link of that name.\<close>

fun run_loop :: "Link list \<Rightarrow> string \<Rightarrow> bool \<Rightarrow> bool" where
  "run_loop [] name run = run"
| "run_loop (l # ls) name run = run_loop ls name (if link_name l = name then False else run)"

definition importLink :: "string list \<Rightarrow> nat \<Rightarrow> TrussModel \<Rightarrow> error + TrussModel" where
  "importLink data j t =
     (case item data j of Inl e \<Rightarrow> Inl e
      | Inr line \<Rightarrow>
          (let L = Link_init [] ''1'' ''2'' None None;
               parts = split_ws (strip line) in
           case name_token parts 1 of Inl e \<Rightarrow> Inl e
           | Inr name \<Rightarrow>
               (case name_token parts 2 of Inl e \<Rightarrow> Inl e
                | Inr node1 \<Rightarrow>
                    (case name_token parts 3 of Inl e \<Rightarrow> Inl e
                     | Inr node2 \<Rightarrow>
                         (let run = run_loop (links t) name True in
                          if hasNode t node1 \<and> hasNode t node2 \<and> run = True
                          then Inr (addLink t
                                 (L\<lparr>link_name := name, node1_Name := node1, node2_Name := node2\<rparr>))
                          else Inr t)))))"

text \<open>
  \<open>importNode\<close>: at least four comma-separated fields, else the line is reported by
  \<open>print\<close> and the model stays as it is. \<open>Node()\<close> starts at the origin.
\<close>

definition importNode ::
  "(string \<Rightarrow> real option) \<Rightarrow> string list \<Rightarrow> nat \<Rightarrow> TrussModel \<Rightarrow> error + TrussModel" where
  "importNode pf data j t =
     (case item data j of Inl e \<Rightarrow> Inl e
      | Inr line \<Rightarrow>
          (let parts = map strip (split_on CHR '','' (strip line)) in
           if length parts \<ge> 4 then
             (let name = parts ! 1 in
              if \<not> hasNode t name then
                (case py_float pf (parts ! 2) of Inl e \<Rightarrow> Inl e
                 | Inr vx \<Rightarrow>
                     (case py_float pf (parts ! 3) of Inl e \<Rightarrow> Inl e
                      | Inr vy \<Rightarrow>
                          Inr (addNode t
                                 \<lparr>node_name = name,
                                  position = Position_init\<lparr>pos_x := vx, pos_y := vy\<rparr>\<rparr>)))
              else Inr t)
           else Inr t))"

subsection \<open>TrussController: the scan of the lines\<close>

text \<open>The assignments at the start of \<open>ImportFromFile\<close>.\<close>

definition clearModel :: "TrussModel \<Rightarrow> TrussModel" where
  "clearModel t =
     t\<lparr>links := [], nodes := [], title := None,
       material := (material t)\<lparr>uts := None, ys := None, mat_E := None,
                                 staticFactor := Some 0\<rparr>\<rparr>"

text \<open>The body of the \<open>while\<close> loop: the first keyword found in the lowered line decides.\<close>

definition scanLine ::
  "(string \<Rightarrow> real option) \<Rightarrow> string list \<Rightarrow> nat \<Rightarrow> TrussModel \<Rightarrow> error + TrussModel" where
  "scanLine pf data Index t =
     (let lin = strip (lower (data ! Index)) in
      if str_find lin ''#'' = 0 then Inr t
      else if str_find lin ''title'' \<ge> 0 then importTitle data Index t
      else if str_find lin ''link'' \<ge> 0 then importLink data Index t
      else if str_find lin ''node'' \<ge> 0 then importNode pf data Index t
      else if str_find lin ''material'' \<ge> 0 then importMaterial pf data Index t
      else if str_find lin ''static_factor'' \<ge> 0 then importSF pf data Index t
      else Inr t)"

text \<open>The \<open>while Index < len(data)\<close> loop.\<close>

function scanLines ::
  "(string \<Rightarrow> real option) \<Rightarrow> string list \<Rightarrow> nat \<Rightarrow> TrussModel \<Rightarrow> error + TrussModel" where
  "scanLines pf data Index t =
     (if Index < length data then
        (case scanLine pf data Index t of
           Inl e \<Rightarrow> Inl e
         | Inr t' \<Rightarrow> scanLines pf data (Index + 1) t')
      else Inr t)"
  by pat_completeness auto
termination
  by (relation "measure (\<lambda>(pf, data, Index, t). length data - Index)") auto

declare scanLines.simps [simp del]

subsection \<open>TrussController: geometry of the links\<close>

text \<open>The body of the loop of \<open>calcLinkVals\<close> for one link.\<close>

definition calcLink :: "TrussModel \<Rightarrow> Link \<Rightarrow> error + Link" where
  "calcLink t l =
     (let n1 = (if hasNode t (node1_Name l) then getNode t (node1_Name l) else None);
          n2 = (if hasNode t (node2_Name l) then getNode t (node2_Name l) else None) in
      case n1 of None \<Rightarrow> Inr l
      | Some a \<Rightarrow>
          (case n2 of None \<Rightarrow> Inr l
           | Some b \<Rightarrow>
               (let r = Position_sub (position b) (position a) in
                case getAngleRad r of Inl e \<Rightarrow> Inl e
                | Inr ang \<Rightarrow> Inr (l\<lparr>link_length := Some (mag r), angleRad := Some ang\<rparr>))))"

fun calcLinks :: "TrussModel \<Rightarrow> Link list \<Rightarrow> error + Link list" where
  "calcLinks t [] = Inr []"
| "calcLinks t (l # ls) =
     (case calcLink t l of Inl e \<Rightarrow> Inl e
      | Inr l' \<Rightarrow>
          (case calcLinks t ls of Inl e \<Rightarrow> Inl e | Inr ls' \<Rightarrow> Inr (l' # ls')))"

definition calcLinkVals :: "TrussModel \<Rightarrow> error + TrussModel" where
  "calcLinkVals t =
     (case calcLinks t (links t) of Inl e \<Rightarrow> Inl e | Inr ls \<Rightarrow> Inr (t\<lparr>links := ls\<rparr>))"

subsection \<open>TrussView: the report\<close>

text \<open>The text widgets that \<open>displayReport\<close> writes to.\<close>

record TrussView =
  te_Report :: string
  le_LongLinkName :: string
  le_LongLinkNode1 :: string
  le_LongLinkNode2 :: string
  le_LongLinkLength :: string

text \<open>
  The loop of \<open>displayReport\<close> over the links, with the variables \<open>longest\<close> and \<open>st\<close>: the
  comparison of the lengths is made only when \<open>longest\<close> is set, and the line of the link
  is formatted after it.
\<close>

fun reportLinks ::
  "(real \<Rightarrow> string) \<Rightarrow> Link list \<Rightarrow> Link option \<Rightarrow> string \<Rightarrow> error + (Link option \<times> string)" where
  "reportLinks fmt [] longest st = Inr (longest, st)"
| "reportLinks fmt (l # ls) longest st =
     (case (case longest of None \<Rightarrow> Inr True
            | Some lg \<Rightarrow> py_gt (link_length l) (link_length lg)) of
        Inl e \<Rightarrow> Inl e
      | Inr b \<Rightarrow>
          (case format_2f fmt (link_length l) of Inl e \<Rightarrow> Inl e
           | Inr sl \<Rightarrow>
               (case format_2f fmt (angleRad l) of Inl e \<Rightarrow> Inl e
                | Inr sa \<Rightarrow>
                    reportLinks fmt ls (if b then Some l else longest)
                      (st @ link_name l @ [CHR 0x09] @ node1_Name l @ [CHR 0x09]
                          @ node2_Name l @ [CHR 0x09] @ sl @ [CHR 0x09] @ sa @ [CHR 0x0A]))))"

text \<open>The heading of the report, up to the line above the links.\<close>

definition reportHeader :: "(real \<Rightarrow> string) \<Rightarrow> TrussModel \<Rightarrow> error + string" where
  "reportHeader fmt truss =
     (case format_2f fmt (staticFactor (material truss)) of Inl e \<Rightarrow> Inl e
      | Inr sf \<Rightarrow>
          (case format_2f fmt (uts (material truss)) of Inl e \<Rightarrow> Inl e
           | Inr su \<Rightarrow>
               (case format_2f fmt (ys (material truss)) of Inl e \<Rightarrow> Inl e
                | Inr sy \<Rightarrow>
                    (case format_2f fmt (mat_E (material truss)) of Inl e \<Rightarrow> Inl e
                     | Inr sm \<Rightarrow>
                         Inr ([CHR 0x09] @ ''Truss Design Report'' @ [CHR 0x0A]
                              @ ''Title:  '' @ format_str (title truss) @ [CHR 0x0A]
                              @ ''Static Factor of Safety:  '' @ sf @ [CHR 0x0A]
                              @ ''Ultimate Strength:  '' @ su @ [CHR 0x0A]
                              @ ''Yield Strength:  '' @ sy @ [CHR 0x0A]
                              @ ''Modulus of Elasticity:  '' @ sm @ [CHR 0x0A]
                              @ ''_____________Link Summary________________'' @ [CHR 0x0A]
                              @ ''Link'' @ [CHR 0x09] @ ''(1)'' @ [CHR 0x09] @ ''(2)''
                              @ [CHR 0x09] @ ''Length'' @ [CHR 0x09] @ ''Angle''
                              @ [CHR 0x0A])))))"

text \<open>
  \<open>displayReport\<close>: after the loop the four fields of the longest link are read from
  \<open>longest\<close>; on \<open>None\<close> the first of them, \<open>longest.name\<close>, raises \<open>AttributeError\<close>.
\<close>

definition displayReport ::
  "(real \<Rightarrow> string) \<Rightarrow> TrussModel \<Rightarrow> TrussView \<Rightarrow> error + TrussView" where
  "displayReport fmt truss view =
     (case reportHeader fmt truss of Inl e \<Rightarrow> Inl e
      | Inr st0 \<Rightarrow>
          (case reportLinks fmt (links truss) None st0 of Inl e \<Rightarrow> Inl e
           | Inr (longest, st) \<Rightarrow>
               (case longest of None \<Rightarrow> Inl AttributeError
                | Some lg \<Rightarrow>
                    (case format_2f fmt (link_length lg) of Inl e \<Rightarrow> Inl e
                     | Inr sl \<Rightarrow>
                         Inr (view\<lparr>te_Report := st, le_LongLinkName := link_name lg,
                                   le_LongLinkLength := sl,
                                   le_LongLinkNode1 := node1_Name lg,
                                   le_LongLinkNode2 := node2_Name lg\<rparr>)))))"

subsection \<open>TrussController: the import\<close>

text \<open>
  \<open>ImportFromFile\<close>: the model is cleared, the lines are scanned, the geometry of the links
  is computed and the report is written. The last call, \<open>drawTruss\<close>, hands the model to
  the graphics scene and is not part of this development.
\<close>

definition ImportFromFile ::
  "(string \<Rightarrow> real option) \<Rightarrow> (real \<Rightarrow> string) \<Rightarrow> string list \<Rightarrow> TrussModel \<Rightarrow> TrussView
     \<Rightarrow> error + (TrussModel \<times> TrussView)" where
  "ImportFromFile pf fmt data t view =
     (case scanLines pf data 0 (clearModel t) of Inl e \<Rightarrow> Inl e
      | Inr t1 \<Rightarrow>
          (case calcLinkVals t1 of Inl e \<Rightarrow> Inl e
           | Inr t2 \<Rightarrow>
               (case displayReport fmt t2 view of Inl e \<Rightarrow> Inl e
                | Inr view' \<Rightarrow> Inr (t2, view'))))"


subsection \<open>The kinds of lines\<close>

text \<open>
  Names for the branches of \<open>scanLine\<close> and for the fields that \<open>importNode\<close> and
  \<open>importLink\<close> read, used to state which line is a node line or a link line.
\<close>

definition node_fields :: "string \<Rightarrow> string list" where
  "node_fields line = map strip (split_on CHR '','' (strip line))"

definition link_fields :: "string \<Rightarrow> string list" where
  "link_fields line = map (strip_of '','') (split_ws (strip line))"

definition is_comment :: "string \<Rightarrow> bool" where
  "is_comment line = (str_find (strip (lower line)) ''#'' = 0)"

definition has_keyword :: "string \<Rightarrow> string \<Rightarrow> bool" where
  "has_keyword kw line = (str_find (strip (lower line)) kw \<ge> 0)"

definition is_link_line :: "string \<Rightarrow> bool" where
  "is_link_line line =
     (\<not> is_comment line \<and> \<not> has_keyword ''title'' line \<and> has_keyword ''link'' line)"

definition is_node_line :: "string \<Rightarrow> bool" where
  "is_node_line line =
     (\<not> is_comment line \<and> \<not> has_keyword ''title'' line \<and> \<not> has_keyword ''link'' line
      \<and> has_keyword ''node'' line)"

definition names_node :: "string \<Rightarrow> string \<Rightarrow> bool" where
  "names_node nm line =
     (is_node_line line \<and> length (node_fields line) \<ge> 4 \<and> node_fields line ! 1 = nm)"

section \<open>Vector geometry\<close>

lemma mag_nonneg: "0 \<le> mag p"
  by (simp add: mag_def)

lemma abs_x_le_mag: "\<bar>pos_x p\<bar> \<le> mag p"
proof -
  have "(pos_x p)\<^sup>2 \<le> (pos_x p)\<^sup>2 + (pos_y p)\<^sup>2 + (pos_z p)\<^sup>2"
    by simp
  then have "sqrt ((pos_x p)\<^sup>2) \<le> mag p"
    unfolding mag_def by (rule real_sqrt_le_mono)
  then show ?thesis by simp
qed

lemma acos_argument_in_range:
  assumes "0 < mag p"
  shows "- 1 \<le> pos_x p / mag p \<and> pos_x p / mag p \<le> 1"
proof -
  have "- mag p \<le> pos_x p" and "pos_x p \<le> mag p"
    using abs_x_le_mag [of p] by linarith+
  with assms show ?thesis
    by (simp add: le_divide_eq divide_le_eq)
qed

lemma getAngleRad_value:
  "getAngleRad p =
     Inr (if mag p \<le> 0 then 0
          else if pos_y p \<ge> 0 then arccos (pos_x p / mag p)
          else 2 * pi - arccos (pos_x p / mag p))"
proof (cases "mag p \<le> 0")
  case True
  then show ?thesis by (simp add: getAngleRad_def)
next
  case False
  then have "0 < mag p" by simp
  from acos_argument_in_range [OF this]
  have "math_acos (pos_x p / mag p) = Inr (arccos (pos_x p / mag p))"
    by (simp add: math_acos_def)
  with False show ?thesis by (simp add: getAngleRad_def Let_def)
qed

lemma mag_unit_x: "mag \<lparr>pos_x = 1, pos_y = 0, pos_z = 0\<rparr> = 1"
  by (simp add: mag_def)

lemma mag_unit_y: "mag \<lparr>pos_x = 0, pos_y = 1, pos_z = 0\<rparr> = 1"
  by (simp add: mag_def)

lemma mag_neg_unit_x: "mag \<lparr>pos_x = - 1, pos_y = 0, pos_z = 0\<rparr> = 1"
  by (simp add: mag_def)

lemma mag_neg_unit_y: "mag \<lparr>pos_x = 0, pos_y = - 1, pos_z = 0\<rparr> = 1"
  by (simp add: mag_def)

text \<open>
  C2. The in-plane angle is 0 for a vector of magnitude at most 0; otherwise it is
  \<open>acos(x/mag)\<close> when \<open>y \<ge> 0\<close> and \<open>2\<pi> - acos(x/mag)\<close> when \<open>y < 0\<close>. The unit vectors
  (1,0,0), (0,1,0), (-1,0,0) and (0,-1,0) have the angles 0, \<open>\<pi>/2\<close>, \<open>\<pi>\<close> and \<open>3\<pi>/2\<close>.
\<close>

theorem getAngleRad_quadrants:
  "getAngleRad v =
     Inr (if mag v \<le> 0 then 0
          else if pos_y v \<ge> 0 then arccos (pos_x v / mag v)
          else 2 * pi - arccos (pos_x v / mag v))
   \<and> getAngleRad \<lparr>pos_x = 1, pos_y = 0, pos_z = 0\<rparr> = Inr 0
   \<and> getAngleRad \<lparr>pos_x = 0, pos_y = 1, pos_z = 0\<rparr> = Inr (pi / 2)
   \<and> getAngleRad \<lparr>pos_x = - 1, pos_y = 0, pos_z = 0\<rparr> = Inr pi
   \<and> getAngleRad \<lparr>pos_x = 0, pos_y = - 1, pos_z = 0\<rparr> = Inr (3 * pi / 2)"
proof -
  have a: "getAngleRad \<lparr>pos_x = 1, pos_y = 0, pos_z = 0\<rparr> = Inr 0"
    by (simp add: getAngleRad_value mag_unit_x)
  have b: "getAngleRad \<lparr>pos_x = 0, pos_y = 1, pos_z = 0\<rparr> = Inr (pi / 2)"
    by (simp add: getAngleRad_value mag_unit_y)
  have c: "getAngleRad \<lparr>pos_x = - 1, pos_y = 0, pos_z = 0\<rparr> = Inr pi"
    by (simp add: getAngleRad_value mag_neg_unit_x)
  have d: "getAngleRad \<lparr>pos_x = 0, pos_y = - 1, pos_z = 0\<rparr> = Inr (3 * pi / 2)"
    by (simp add: getAngleRad_value mag_neg_unit_y)
  show ?thesis using a b c d getAngleRad_value [of v] by simp
qed

text \<open>
  C9. \<open>normalize\<close> leaves a vector of magnitude at most 0 as it is and never raises: the
  division by zero of \<open>__idiv__\<close> is not reached. A vector of positive magnitude has each
  component divided by the magnitude.
\<close>

theorem normalize_no_zero_division:
  "normalize v =
     Inr (if mag v \<le> 0 then v
          else \<lparr>pos_x = pos_x v / mag v, pos_y = pos_y v / mag v, pos_z = pos_z v / mag v\<rparr>)"
  by (simp add: normalize_def idiv_def Let_def)

text \<open>
  C8. Link equality holds exactly when the two endpoint node names, the lengths and the
  angles agree; the names of the links play no part.
\<close>

theorem Link_eq_ignores_name:
  "Link_eq a b =
     (node1_Name a = node1_Name b \<and> node2_Name a = node2_Name b
      \<and> link_length a = link_length b \<and> angleRad a = angleRad b)
   \<and> Link_eq (a\<lparr>link_name := n\<rparr>) (b\<lparr>link_name := m\<rparr>) = Link_eq a b"
  by (simp add: Link_eq_def)

text \<open>
  C10. A freshly constructed link has the empty name and no length or angle, whatever is
  passed for them; only the two node-name arguments are stored.
\<close>

theorem Link_init_ignores_arguments:
  "link_name (Link_init name node1 node2 len ang) = []
   \<and> link_length (Link_init name node1 node2 len ang) = None
   \<and> angleRad (Link_init name node1 node2 len ang) = None
   \<and> node1_Name (Link_init name node1 node2 len ang) = node1
   \<and> node2_Name (Link_init name node1 node2 len ang) = node2
   \<and> Link_init name node1 node2 len ang = Link_init name' node1 node2 len' ang'"
  by (simp add: Link_init_def)

section \<open>Evaluation on concrete lines\<close>

lemmas str_defs = strip_def strip_chars_def strip_of_def str_find_def
  split_ws_def split_on_def isspace_def item_def

lemmas imp_defs = scanLine_def importNode_def importLink_def importTitle_def
  importMaterial_def importSF_def hasNode_def addNode_def addLink_def py_float_def
  float_token_def name_token_def Link_init_def Position_init_def

lemma mag_3_4: "mag \<lparr>pos_x = 3, pos_y = 4, pos_z = 0\<rparr> = 5"
proof -
  have "sqrt ((5::real)\<^sup>2) = 5" by (simp only: real_sqrt_abs abs_numeral)
  then show ?thesis by (simp add: mag_def)
qed

lemma float_digits_0_3_4:
  "float_digits ''0'' = Some 0 \<and> float_digits ''3'' = Some 3 \<and> float_digits ''4'' = Some 4"
  by (simp add: float_digits_def str_defs isdigit_def)

text \<open>
  C3. The lines for node A at (0,0), node B at (3,4) and link L1 from A to B are scanned
  without error into a model with that one link, and the geometry pass gives it the
  length 5 (and the angle \<open>acos(3/5)\<close>).
\<close>

theorem import_two_nodes_one_link:
  assumes "pf ''0'' = Some 0" and "pf ''3'' = Some 3" and "pf ''4'' = Some 4"
  shows "\<exists>t1 t2.
           scanLines pf [''node, A, 0, 0'', ''node, B, 3, 4'', ''link L1, A, B''] 0
             (clearModel t) = Inr t1
         \<and> calcLinkVals t1 = Inr t2
         \<and> links t2 = [\<lparr>link_name = ''L1'', node1_Name = ''A'', node2_Name = ''B'',
                         link_length = Some 5, angleRad = Some (arccos (3 / 5))\<rparr>]"
proof -
  have l0: "lower ''node, A, 0, 0'' = ''node, a, 0, 0''" by code_simp
  have l1: "lower ''node, B, 3, 4'' = ''node, b, 3, 4''" by code_simp
  have l2: "lower ''link L1, A, B'' = ''link l1, a, b''" by code_simp
  define t1 where
    "t1 = (clearModel t)
            \<lparr>nodes :=
               [\<lparr>node_name = ''A'', position = \<lparr>pos_x = 0, pos_y = 0, pos_z = 0\<rparr>\<rparr>,
                \<lparr>node_name = ''B'', position = \<lparr>pos_x = 3, pos_y = 4, pos_z = 0\<rparr>\<rparr>],
             links :=
               [\<lparr>link_name = ''L1'', node1_Name = ''A'', node2_Name = ''B'',
                 link_length = None, angleRad = None\<rparr>]\<rparr>"
  have scan:
    "scanLines pf [''node, A, 0, 0'', ''node, B, 3, 4'', ''link L1, A, B''] 0 (clearModel t)
       = Inr t1"
    using assms unfolding t1_def
    by (simp add: scanLines.simps str_defs imp_defs clearModel_def l0 l1 l2)
  have calc:
    "calcLinkVals t1 =
       Inr (t1\<lparr>links := [\<lparr>link_name = ''L1'', node1_Name = ''A'', node2_Name = ''B'',
                            link_length = Some 5, angleRad = Some (arccos (3 / 5))\<rparr>]\<rparr>)"
    unfolding t1_def
    by (simp add: calcLinkVals_def calcLink_def hasNode_def getNode_def Position_sub_def
          getAngleRad_value mag_3_4)
  show ?thesis using scan calc by simp
qed

theorem import_two_nodes_one_link_witness:
  "float_digits ''0'' = Some 0 \<and> float_digits ''3'' = Some 3 \<and> float_digits ''4'' = Some 4
   \<and> (\<exists>t1 t2.
         scanLines float_digits [''node, A, 0, 0'', ''node, B, 3, 4'', ''link L1, A, B''] 0
           (clearModel TrussModel_init) = Inr t1
       \<and> calcLinkVals t1 = Inr t2
       \<and> links t2 = [\<lparr>link_name = ''L1'', node1_Name = ''A'', node2_Name = ''B'',
                       link_length = Some 5, angleRad = Some (arccos (3 / 5))\<rparr>])"
  using float_digits_0_3_4
    import_two_nodes_one_link [of float_digits TrussModel_init]
  by simp

section \<open>The report\<close>

lemma reportHeader_links [simp]: "reportHeader fmt (t\<lparr>links := ls\<rparr>) = reportHeader fmt t"
  by (simp add: reportHeader_def split: sum.splits)

text \<open>
  C1. Formatting the report of a model without links does not complete: for every model
  with an empty list of links \<open>displayReport\<close> ends with an exception, and with all four
  material values set it is the \<open>AttributeError\<close> of \<open>longest.name\<close> on \<open>None\<close>.
\<close>

theorem displayReport_no_links_fails:
  "isl (displayReport fmt (t\<lparr>links := []\<rparr>) view)
   \<and> displayReport fmt
        \<lparr>title = Some ''T'', links = [], nodes = [],
         material = \<lparr>uts = Some 1, ys = Some 1, mat_E = Some 1, staticFactor = Some 1\<rparr>\<rparr> view
      = Inl AttributeError"
  by (simp add: displayReport_def reportHeader_def format_2f_def split: sum.splits)

lemma format_2f_Inr: "format_2f fmt v = Inr s \<longleftrightarrow> (\<exists>r. v = Some r \<and> s = fmt r)"
  by (auto simp: format_2f_def split: option.splits)

lemma py_gt_Inr: "py_gt a b = Inr c \<longleftrightarrow> (\<exists>u v. a = Some u \<and> b = Some v \<and> c = (u > v))"
  by (auto simp: py_gt_def split: option.splits)

lemma reportLinks_Some:
  assumes "reportLinks fmt ls (Some lg) st = Inr (r, st')" and "link_length lg = Some m"
  shows "\<exists>lg' m'. r = Some lg' \<and> link_length lg' = Some m'
           \<and> ((lg' = lg \<and> m' = m \<and> (\<forall>l\<in>set ls. \<exists>q. link_length l = Some q \<and> q \<le> m))
              \<or> (\<exists>pre post. ls = pre @ lg' # post \<and> m < m'
                    \<and> (\<forall>l\<in>set pre. \<exists>q. link_length l = Some q \<and> q < m')
                    \<and> (\<forall>l\<in>set post. \<exists>q. link_length l = Some q \<and> q \<le> m')))"
  using assms
proof (induction ls arbitrary: lg m st)
  case Nil
  then show ?case by simp
next
  case (Cons l ls)
  from Cons.prems obtain q0 sl sa where
    q0: "link_length l = Some q0"
    and rec: "reportLinks fmt ls (if q0 > m then Some l else Some lg)
                (st @ link_name l @ [CHR 0x09] @ node1_Name l @ [CHR 0x09]
                          @ node2_Name l @ [CHR 0x09] @ sl @ [CHR 0x09] @ sa @ [CHR 0x0A]) = Inr (r, st')"
    by (auto simp: py_gt_Inr format_2f_Inr split: sum.splits if_splits)
  show ?case
  proof (cases "q0 > m")
    case True
    with rec have "reportLinks fmt ls (Some l)
                (st @ link_name l @ [CHR 0x09] @ node1_Name l @ [CHR 0x09]
                          @ node2_Name l @ [CHR 0x09] @ sl @ [CHR 0x09] @ sa @ [CHR 0x0A]) = Inr (r, st')" by simp
    from Cons.IH [OF this q0] obtain lg' m' where
      r: "r = Some lg'" "link_length lg' = Some m'"
      and d: "(lg' = l \<and> m' = q0 \<and> (\<forall>l\<in>set ls. \<exists>q. link_length l = Some q \<and> q \<le> q0))
              \<or> (\<exists>pre post. ls = pre @ lg' # post \<and> q0 < m'
                    \<and> (\<forall>l\<in>set pre. \<exists>q. link_length l = Some q \<and> q < m')
                    \<and> (\<forall>l\<in>set post. \<exists>q. link_length l = Some q \<and> q \<le> m'))"
      by blast
    from d show ?thesis
    proof
      assume a: "lg' = l \<and> m' = q0 \<and> (\<forall>l\<in>set ls. \<exists>q. link_length l = Some q \<and> q \<le> q0)"
      then have "l # ls = [] @ lg' # ls \<and> m < m'
                    \<and> (\<forall>l\<in>set []. \<exists>q. link_length l = Some q \<and> q < m')
                    \<and> (\<forall>l\<in>set ls. \<exists>q. link_length l = Some q \<and> q \<le> m')"
        using True by simp
      then show ?thesis using r by blast
    next
      assume "\<exists>pre post. ls = pre @ lg' # post \<and> q0 < m'
                    \<and> (\<forall>l\<in>set pre. \<exists>q. link_length l = Some q \<and> q < m')
                    \<and> (\<forall>l\<in>set post. \<exists>q. link_length l = Some q \<and> q \<le> m')"
      then obtain pre post where p: "ls = pre @ lg' # post" "q0 < m'"
         "\<forall>l\<in>set pre. \<exists>q. link_length l = Some q \<and> q < m'"
         "\<forall>l\<in>set post. \<exists>q. link_length l = Some q \<and> q \<le> m'" by blast
      then have "l # ls = (l # pre) @ lg' # post \<and> m < m'
                    \<and> (\<forall>l\<in>set (l # pre). \<exists>q. link_length l = Some q \<and> q < m')
                    \<and> (\<forall>l\<in>set post. \<exists>q. link_length l = Some q \<and> q \<le> m')"
        using True q0 by auto
      then show ?thesis using r by blast
    qed
  next
    case False
    with rec have "reportLinks fmt ls (Some lg)
                (st @ link_name l @ [CHR 0x09] @ node1_Name l @ [CHR 0x09]
                          @ node2_Name l @ [CHR 0x09] @ sl @ [CHR 0x09] @ sa @ [CHR 0x0A]) = Inr (r, st')" by simp
    from Cons.IH [OF this Cons.prems(2)] obtain lg' m' where
      r: "r = Some lg'" "link_length lg' = Some m'"
      and d: "(lg' = lg \<and> m' = m \<and> (\<forall>l\<in>set ls. \<exists>q. link_length l = Some q \<and> q \<le> m))
              \<or> (\<exists>pre post. ls = pre @ lg' # post \<and> m < m'
                    \<and> (\<forall>l\<in>set pre. \<exists>q. link_length l = Some q \<and> q < m')
                    \<and> (\<forall>l\<in>set post. \<exists>q. link_length l = Some q \<and> q \<le> m'))"
      by blast
    from d show ?thesis
    proof
      assume "lg' = lg \<and> m' = m \<and> (\<forall>l\<in>set ls. \<exists>q. link_length l = Some q \<and> q \<le> m)"
      then have "lg' = lg \<and> m' = m \<and> (\<forall>l\<in>set (l # ls). \<exists>q. link_length l = Some q \<and> q \<le> m)"
        using False q0 by auto
      then show ?thesis using r by blast
    next
      assume "\<exists>pre post. ls = pre @ lg' # post \<and> m < m'
                    \<and> (\<forall>l\<in>set pre. \<exists>q. link_length l = Some q \<and> q < m')
                    \<and> (\<forall>l\<in>set post. \<exists>q. link_length l = Some q \<and> q \<le> m')"
      then obtain pre post where p: "ls = pre @ lg' # post" "m < m'"
         "\<forall>l\<in>set pre. \<exists>q. link_length l = Some q \<and> q < m'"
         "\<forall>l\<in>set post. \<exists>q. link_length l = Some q \<and> q \<le> m'" by blast
      then have "l # ls = (l # pre) @ lg' # post \<and> m < m'
                    \<and> (\<forall>l\<in>set (l # pre). \<exists>q. link_length l = Some q \<and> q < m')
                    \<and> (\<forall>l\<in>set post. \<exists>q. link_length l = Some q \<and> q \<le> m')"
        using False q0 by auto
      then show ?thesis using r by blast
    qed
  qed
qed

lemma reportLinks_None:
  assumes "reportLinks fmt ls None st = Inr (r, st')"
  shows "(ls = [] \<and> r = None)
         \<or> (\<exists>pre lg post m. r = Some lg \<and> ls = pre @ lg # post \<and> link_length lg = Some m
                \<and> (\<forall>l\<in>set pre. \<exists>q. link_length l = Some q \<and> q < m)
                \<and> (\<forall>l\<in>set post. \<exists>q. link_length l = Some q \<and> q \<le> m))"
proof (cases ls)
  case Nil
  with assms show ?thesis by simp
next
  case (Cons l ls')
  with assms obtain q0 st1 where q0: "link_length l = Some q0"
    and rec: "reportLinks fmt ls' (Some l) st1 = Inr (r, st')"
    by (auto simp: format_2f_Inr split: sum.splits)
  from reportLinks_Some [OF rec q0] obtain lg' m' where
      r: "r = Some lg'" "link_length lg' = Some m'"
      and d: "(lg' = l \<and> m' = q0 \<and> (\<forall>l\<in>set ls'. \<exists>q. link_length l = Some q \<and> q \<le> q0))
              \<or> (\<exists>pre post. ls' = pre @ lg' # post \<and> q0 < m'
                    \<and> (\<forall>l\<in>set pre. \<exists>q. link_length l = Some q \<and> q < m')
                    \<and> (\<forall>l\<in>set post. \<exists>q. link_length l = Some q \<and> q \<le> m'))"
      by blast
  from d have "\<exists>pre post. ls = pre @ lg' # post
                \<and> (\<forall>l\<in>set pre. \<exists>q. link_length l = Some q \<and> q < m')
                \<and> (\<forall>l\<in>set post. \<exists>q. link_length l = Some q \<and> q \<le> m')"
  proof
    assume "lg' = l \<and> m' = q0 \<and> (\<forall>l\<in>set ls'. \<exists>q. link_length l = Some q \<and> q \<le> q0)"
    then have "ls = [] @ lg' # ls' \<and> (\<forall>l\<in>set []. \<exists>q. link_length l = Some q \<and> q < m')
                \<and> (\<forall>l\<in>set ls'. \<exists>q. link_length l = Some q \<and> q \<le> m')"
      using Cons by simp
    then show ?thesis by blast
  next
    assume "\<exists>pre post. ls' = pre @ lg' # post \<and> q0 < m'
                    \<and> (\<forall>l\<in>set pre. \<exists>q. link_length l = Some q \<and> q < m')
                    \<and> (\<forall>l\<in>set post. \<exists>q. link_length l = Some q \<and> q \<le> m')"
    then obtain pre post where p: "ls' = pre @ lg' # post" "q0 < m'"
         "\<forall>l\<in>set pre. \<exists>q. link_length l = Some q \<and> q < m'"
         "\<forall>l\<in>set post. \<exists>q. link_length l = Some q \<and> q \<le> m'" by blast
    then have "ls = (l # pre) @ lg' # post
                    \<and> (\<forall>l\<in>set (l # pre). \<exists>q. link_length l = Some q \<and> q < m')
                    \<and> (\<forall>l\<in>set post. \<exists>q. link_length l = Some q \<and> q \<le> m')"
      using Cons q0 by auto
    then show ?thesis by blast
  qed
  with r show ?thesis by blast
qed

text \<open>
  C7. When \<open>displayReport\<close> completes, the link shown as longest is the first link of
  maximal length: every link before it is strictly shorter, every link after it is at
  most as long. For the lengths 5, 10, 7 it is the link of length 10.
\<close>

theorem displayReport_longest_link:
  "(displayReport fmt truss view = Inr view' \<longrightarrow>
      (\<exists>pre lg post m.
          links truss = pre @ lg # post \<and> link_length lg = Some m
        \<and> (\<forall>l\<in>set pre. \<exists>q. link_length l = Some q \<and> q < m)
        \<and> (\<forall>l\<in>set post. \<exists>q. link_length l = Some q \<and> q \<le> m)
        \<and> le_LongLinkName view' = link_name lg
        \<and> le_LongLinkLength view' = fmt m
        \<and> le_LongLinkNode1 view' = node1_Name lg
        \<and> le_LongLinkNode2 view' = node2_Name lg))
   \<and> (\<exists>v. displayReport fmt
              \<lparr>title = None,
               links =
                 [\<lparr>link_name = ''L1'', node1_Name = ''A'', node2_Name = ''B'',
                   link_length = Some 5, angleRad = Some 0\<rparr>,
                  \<lparr>link_name = ''L2'', node1_Name = ''B'', node2_Name = ''C'',
                   link_length = Some 10, angleRad = Some 0\<rparr>,
                  \<lparr>link_name = ''L3'', node1_Name = ''C'', node2_Name = ''A'',
                   link_length = Some 7, angleRad = Some 0\<rparr>],
               nodes = [],
               material = \<lparr>uts = Some 1, ys = Some 1, mat_E = Some 1, staticFactor = Some 1\<rparr>\<rparr>
              view = Inr v
          \<and> le_LongLinkName v = ''L2'' \<and> le_LongLinkLength v = fmt 10
          \<and> le_LongLinkNode1 v = ''B'' \<and> le_LongLinkNode2 v = ''C'')"
proof (intro conjI impI)
  assume ok: "displayReport fmt truss view = Inr view'"
  then obtain st0 lg st m0 where
    loop: "reportLinks fmt (links truss) None st0 = Inr (Some lg, st)"
    and m0: "link_length lg = Some m0"
    and v: "view' = view\<lparr>te_Report := st, le_LongLinkName := link_name lg,
                         le_LongLinkLength := fmt m0,
                         le_LongLinkNode1 := node1_Name lg,
                         le_LongLinkNode2 := node2_Name lg\<rparr>"
    by (auto simp: displayReport_def format_2f_Inr split: sum.splits option.splits)
  from reportLinks_None [OF loop] m0 obtain pre post where
    "links truss = pre @ lg # post"
    "\<forall>l\<in>set pre. \<exists>q. link_length l = Some q \<and> q < m0"
    "\<forall>l\<in>set post. \<exists>q. link_length l = Some q \<and> q \<le> m0"
    by auto
  with v m0 show "\<exists>pre lg post m.
          links truss = pre @ lg # post \<and> link_length lg = Some m
        \<and> (\<forall>l\<in>set pre. \<exists>q. link_length l = Some q \<and> q < m)
        \<and> (\<forall>l\<in>set post. \<exists>q. link_length l = Some q \<and> q \<le> m)
        \<and> le_LongLinkName view' = link_name lg
        \<and> le_LongLinkLength view' = fmt m
        \<and> le_LongLinkNode1 view' = node1_Name lg
        \<and> le_LongLinkNode2 view' = node2_Name lg"
    by (intro exI [of _ pre] exI [of _ lg] exI [of _ post] exI [of _ m0]) simp
next
  show "\<exists>v. displayReport fmt
              \<lparr>title = None,
               links =
                 [\<lparr>link_name = ''L1'', node1_Name = ''A'', node2_Name = ''B'',
                   link_length = Some 5, angleRad = Some 0\<rparr>,
                  \<lparr>link_name = ''L2'', node1_Name = ''B'', node2_Name = ''C'',
                   link_length = Some 10, angleRad = Some 0\<rparr>,
                  \<lparr>link_name = ''L3'', node1_Name = ''C'', node2_Name = ''A'',
                   link_length = Some 7, angleRad = Some 0\<rparr>],
               nodes = [],
               material = \<lparr>uts = Some 1, ys = Some 1, mat_E = Some 1, staticFactor = Some 1\<rparr>\<rparr>
              view = Inr v
          \<and> le_LongLinkName v = ''L2'' \<and> le_LongLinkLength v = fmt 10
          \<and> le_LongLinkNode1 v = ''B'' \<and> le_LongLinkNode2 v = ''C''"
    by (simp add: displayReport_def reportHeader_def format_2f_def py_gt_def)
qed

theorem displayReport_longest_link_witness:
  "\<exists>v'. displayReport (\<lambda>r. [])
              \<lparr>title = None,
               links =
                 [\<lparr>link_name = ''L1'', node1_Name = ''A'', node2_Name = ''B'',
                   link_length = Some 5, angleRad = Some 0\<rparr>,
                  \<lparr>link_name = ''L2'', node1_Name = ''B'', node2_Name = ''C'',
                   link_length = Some 10, angleRad = Some 0\<rparr>,
                  \<lparr>link_name = ''L3'', node1_Name = ''C'', node2_Name = ''A'',
                   link_length = Some 7, angleRad = Some 0\<rparr>],
               nodes = [],
               material = \<lparr>uts = Some 1, ys = Some 1, mat_E = Some 1, staticFactor = Some 1\<rparr>\<rparr>
              \<lparr>te_Report = [], le_LongLinkName = [], le_LongLinkNode1 = [],
               le_LongLinkNode2 = [], le_LongLinkLength = []\<rparr> = Inr v'
     \<and> (\<exists>pre lg post m.
          [\<lparr>link_name = ''L1'', node1_Name = ''A'', node2_Name = ''B'',
                   link_length = Some 5, angleRad = Some 0\<rparr>,
                  \<lparr>link_name = ''L2'', node1_Name = ''B'', node2_Name = ''C'',
                   link_length = Some 10, angleRad = Some 0\<rparr>,
                  \<lparr>link_name = ''L3'', node1_Name = ''C'', node2_Name = ''A'',
                   link_length = Some 7, angleRad = Some 0\<rparr>] = pre @ lg # post \<and> link_length lg = Some m
        \<and> (\<forall>l\<in>set pre. \<exists>q. link_length l = Some q \<and> q < m)
        \<and> (\<forall>l\<in>set post. \<exists>q. link_length l = Some q \<and> q \<le> m)
        \<and> le_LongLinkName v' = link_name lg
        \<and> le_LongLinkLength v' = (\<lambda>r. []) m
        \<and> le_LongLinkNode1 v' = node1_Name lg
        \<and> le_LongLinkNode2 v' = node2_Name lg)"
proof -
  let ?T = "\<lparr>title = None,
               links =
                 [\<lparr>link_name = ''L1'', node1_Name = ''A'', node2_Name = ''B'',
                   link_length = Some 5, angleRad = Some 0\<rparr>,
                  \<lparr>link_name = ''L2'', node1_Name = ''B'', node2_Name = ''C'',
                   link_length = Some 10, angleRad = Some 0\<rparr>,
                  \<lparr>link_name = ''L3'', node1_Name = ''C'', node2_Name = ''A'',
                   link_length = Some 7, angleRad = Some 0\<rparr>],
               nodes = [],
               material = \<lparr>uts = Some 1, ys = Some 1, mat_E = Some 1, staticFactor = Some 1\<rparr>\<rparr>"
  let ?V = "\<lparr>te_Report = [], le_LongLinkName = [], le_LongLinkNode1 = [],
               le_LongLinkNode2 = [], le_LongLinkLength = []\<rparr>"
  obtain v' where h: "displayReport (\<lambda>r. []) ?T ?V = Inr v'"
    by (simp add: displayReport_def reportHeader_def format_2f_def py_gt_def)
  from displayReport_longest_link [of "\<lambda>r. []" ?T ?V v', THEN conjunct1, rule_format, OF h] h
  show ?thesis by simp
qed

section \<open>Nodes: the first line of a name wins\<close>

lemma hasNode_loop_iff: "hasNode_loop ns nm \<longleftrightarrow> nm \<in> node_name ` set ns"
  by (induction ns) auto

lemma hasNode_filter: "hasNode t nm \<longleftrightarrow> filter (\<lambda>n. node_name n = nm) (nodes t) \<noteq> []"
  by (auto simp: hasNode_def hasNode_loop_iff filter_empty_conv)

lemma importNode_nodes:
  assumes "importNode pf data j t = Inr t'" and "j < length data"
  shows "if length (node_fields (data ! j)) \<ge> 4 \<and> \<not> hasNode t (node_fields (data ! j) ! 1)
         then (\<exists>vx vy. pf (node_fields (data ! j) ! 2) = Some vx
               \<and> pf (node_fields (data ! j) ! 3) = Some vy
               \<and> t' = t\<lparr>nodes := nodes t @
                     [\<lparr>node_name = node_fields (data ! j) ! 1,
                       position = \<lparr>pos_x = vx, pos_y = vy, pos_z = 0\<rparr>\<rparr>]\<rparr>)
         else t' = t"
  using assms
  by (auto simp: importNode_def item_def Let_def node_fields_def py_float_def addNode_def
        Position_init_def split: if_splits sum.splits option.splits)

lemma importTitle_nodes: "importTitle data j t = Inr t' \<Longrightarrow> nodes t' = nodes t"
  by (auto simp: importTitle_def split: sum.splits list.splits)

lemma importLink_nodes: "importLink data j t = Inr t' \<Longrightarrow> nodes t' = nodes t"
  by (auto simp: importLink_def Let_def addLink_def split: sum.splits if_splits)

lemma importMaterial_nodes: "importMaterial pf data j t = Inr t' \<Longrightarrow> nodes t' = nodes t"
  by (auto simp: importMaterial_def Let_def split: sum.splits)

lemma importSF_nodes: "importSF pf data j t = Inr t' \<Longrightarrow> nodes t' = nodes t"
  by (auto simp: importSF_def split: sum.splits)

lemma scanLine_node_line:
  "is_node_line (data ! j) \<Longrightarrow> scanLine pf data j t = importNode pf data j t"
  by (simp add: scanLine_def is_node_line_def is_comment_def has_keyword_def Let_def)

lemma scanLine_link_line:
  "is_link_line (data ! j) \<Longrightarrow> scanLine pf data j t = importLink data j t"
  by (simp add: scanLine_def is_link_line_def is_comment_def has_keyword_def Let_def)

lemma scanLine_nodes:
  assumes "scanLine pf data j t = Inr t'" and "j < length data"
  shows "nodes t' = nodes t
         \<or> (\<exists>vx vy. names_node (node_fields (data ! j) ! 1) (data ! j)
               \<and> \<not> hasNode t (node_fields (data ! j) ! 1)
               \<and> pf (node_fields (data ! j) ! 2) = Some vx
               \<and> pf (node_fields (data ! j) ! 3) = Some vy
               \<and> nodes t' = nodes t @
                     [\<lparr>node_name = node_fields (data ! j) ! 1,
                       position = \<lparr>pos_x = vx, pos_y = vy, pos_z = 0\<rparr>\<rparr>])"
proof (cases "is_node_line (data ! j)")
  case True
  with assms have "importNode pf data j t = Inr t'" by (simp add: scanLine_node_line)
  from importNode_nodes [OF this assms(2)] True show ?thesis
    by (auto simp: names_node_def split: if_splits)
next
  case False
  with assms(1) have "nodes t' = nodes t"
    by (auto simp: scanLine_def Let_def is_node_line_def is_comment_def has_keyword_def
          split: if_splits
          dest: importTitle_nodes importLink_nodes importMaterial_nodes importSF_nodes)
  then show ?thesis ..
qed

lemma scanLine_keeps_named_node:
  assumes "scanLine pf data j t = Inr t'" and "j < length data"
    and "filter (\<lambda>n. node_name n = nm) (nodes t) = [n]"
  shows "filter (\<lambda>n. node_name n = nm) (nodes t') = [n]"
proof -
  from assms(3) have "hasNode t nm" by (simp add: hasNode_filter)
  with scanLine_nodes [OF assms(1,2)] assms(3) show ?thesis by auto
qed

lemma scanLine_other_line:
  assumes "scanLine pf data j t = Inr t'" and "j < length data"
    and "\<not> names_node nm (data ! j)"
    and "filter (\<lambda>n. node_name n = nm) (nodes t) = []"
  shows "filter (\<lambda>n. node_name n = nm) (nodes t') = []"
  using scanLine_nodes [OF assms(1,2)] assms(3,4) by auto

lemma scanLine_first_node_line:
  assumes "scanLine pf data j t = Inr t'" and "j < length data"
    and "names_node nm (data ! j)"
    and "filter (\<lambda>n. node_name n = nm) (nodes t) = []"
  shows "\<exists>vx vy. pf (node_fields (data ! j) ! 2) = Some vx
           \<and> pf (node_fields (data ! j) ! 3) = Some vy
           \<and> filter (\<lambda>n. node_name n = nm) (nodes t') =
               [\<lparr>node_name = nm, position = \<lparr>pos_x = vx, pos_y = vy, pos_z = 0\<rparr>\<rparr>]"
proof -
  from assms(3) have nl: "is_node_line (data ! j)" and len: "length (node_fields (data ! j)) \<ge> 4"
    and nm: "node_fields (data ! j) ! 1 = nm"
    by (simp_all add: names_node_def)
  from assms(4) have no: "\<not> hasNode t nm" by (simp add: hasNode_filter)
  from assms(1) nl have "importNode pf data j t = Inr t'" by (simp add: scanLine_node_line)
  from importNode_nodes [OF this assms(2)] no nm len
  have "\<exists>vx vy. pf (node_fields (data ! j) ! 2) = Some vx
               \<and> pf (node_fields (data ! j) ! 3) = Some vy
               \<and> t' = t\<lparr>nodes := nodes t @
                     [\<lparr>node_name = nm, position = \<lparr>pos_x = vx, pos_y = vy, pos_z = 0\<rparr>\<rparr>]\<rparr>"
    by simp
  then show ?thesis using assms(4) by auto
qed

lemma scanLines_keeps_named_node:
  "scanLines pf data j t = Inr t' \<Longrightarrow> filter (\<lambda>n. node_name n = nm) (nodes t) = [n]
     \<Longrightarrow> filter (\<lambda>n. node_name n = nm) (nodes t') = [n]"
proof (induction pf data j t rule: scanLines.induct)
  case (1 pf data Index t)
  show ?case
  proof (cases "Index < length data")
    case True
    with "1.prems"(1) obtain t1 where
      step: "scanLine pf data Index t = Inr t1"
      and rest: "scanLines pf data (Index + 1) t1 = Inr t'"
      by (auto simp: scanLines.simps [of pf data Index t] split: sum.splits)
    from scanLine_keeps_named_node [OF step True "1.prems"(2)]
    show ?thesis using "1.IH" [OF True step rest] by simp
  next
    case False
    with "1.prems" show ?thesis by (simp add: scanLines.simps [of pf data Index t])
  qed
qed

lemma scanLines_first_node_line:
  "scanLines pf data j t = Inr t' \<Longrightarrow> filter (\<lambda>n. node_name n = nm) (nodes t) = []
     \<Longrightarrow> j \<le> i \<Longrightarrow> i < length data \<Longrightarrow> names_node nm (data ! i)
     \<Longrightarrow> \<forall>k. j \<le> k \<and> k < i \<longrightarrow> \<not> names_node nm (data ! k)
     \<Longrightarrow> \<exists>vx vy. pf (node_fields (data ! i) ! 2) = Some vx
           \<and> pf (node_fields (data ! i) ! 3) = Some vy
           \<and> filter (\<lambda>n. node_name n = nm) (nodes t') =
               [\<lparr>node_name = nm, position = \<lparr>pos_x = vx, pos_y = vy, pos_z = 0\<rparr>\<rparr>]"
proof (induction pf data j t rule: scanLines.induct)
  case (1 pf data Index t)
  from "1.prems"(3,4) have lt: "Index < length data" by simp
  with "1.prems"(1) obtain t1 where
      step: "scanLine pf data Index t = Inr t1"
      and rest: "scanLines pf data (Index + 1) t1 = Inr t'"
    by (auto simp: scanLines.simps [of pf data Index t] split: sum.splits)
  show ?case
  proof (cases "Index = i")
    case True
    from scanLine_first_node_line [OF step lt _ "1.prems"(2)] "1.prems"(5) True
    obtain vx vy where v: "pf (node_fields (data ! i) ! 2) = Some vx"
      "pf (node_fields (data ! i) ! 3) = Some vy"
      "filter (\<lambda>n. node_name n = nm) (nodes t1) =
               [\<lparr>node_name = nm, position = \<lparr>pos_x = vx, pos_y = vy, pos_z = 0\<rparr>\<rparr>]"
      by auto
    from scanLines_keeps_named_node [OF rest v(3)] v(1,2) show ?thesis by blast
  next
    case False
    with "1.prems"(3) have lt_i: "Index < i" by simp
    with "1.prems"(6) have "\<not> names_node nm (data ! Index)" by simp
    from scanLine_other_line [OF step lt this "1.prems"(2)]
    have e: "filter (\<lambda>n. node_name n = nm) (nodes t1) = []" .
    from lt_i "1.prems"(6) have
      "Index + 1 \<le> i" "\<forall>k. Index + 1 \<le> k \<and> k < i \<longrightarrow> \<not> names_node nm (data ! k)"
      by auto
    from "1.IH" [OF lt step rest e this(1) "1.prems"(4,5) this(2)] show ?thesis .
  qed
qed

lemma importNode_duplicate:
  assumes "j < length data" and "names_node nm (data ! j)" and "hasNode t nm"
  shows "scanLine pf data j t = Inr t"
  using assms
  by (simp add: names_node_def scanLine_node_line importNode_def item_def Let_def node_fields_def)

text \<open>
  C5. Let line \<open>i\<close> be the first node line with the name \<open>nm\<close> in an input that is scanned
  without error. Then the final model has exactly one node of that name, and its position
  is the one parsed from line \<open>i\<close>. Any other node line with that name leaves a model
  that has the node unchanged and raises nothing.
\<close>

theorem first_node_line_wins:
  assumes "scanLines pf data 0 (clearModel t) = Inr t'"
    and "i < length data" and "names_node nm (data ! i)"
    and "\<forall>k<i. \<not> names_node nm (data ! k)"
  shows "(\<exists>vx vy. pf (node_fields (data ! i) ! 2) = Some vx
           \<and> pf (node_fields (data ! i) ! 3) = Some vy
           \<and> filter (\<lambda>n. node_name n = nm) (nodes t') =
               [\<lparr>node_name = nm, position = \<lparr>pos_x = vx, pos_y = vy, pos_z = 0\<rparr>\<rparr>])
         \<and> (\<forall>j s. j < length data \<and> names_node nm (data ! j) \<and> hasNode s nm
               \<longrightarrow> scanLine pf data j s = Inr s)"
proof
  have "filter (\<lambda>n. node_name n = nm) (nodes (clearModel t)) = []"
    by (simp add: clearModel_def)
  from scanLines_first_node_line [OF assms(1) this _ assms(2,3)] assms(4)
  show "\<exists>vx vy. pf (node_fields (data ! i) ! 2) = Some vx
           \<and> pf (node_fields (data ! i) ! 3) = Some vy
           \<and> filter (\<lambda>n. node_name n = nm) (nodes t') =
               [\<lparr>node_name = nm, position = \<lparr>pos_x = vx, pos_y = vy, pos_z = 0\<rparr>\<rparr>]"
    by simp
next
  show "\<forall>j s. j < length data \<and> names_node nm (data ! j) \<and> hasNode s nm
               \<longrightarrow> scanLine pf data j s = Inr s"
    using importNode_duplicate by blast
qed

lemma float_digits_1_2_5_6:
  "float_digits ''1'' = Some 1 \<and> float_digits ''2'' = Some 2
   \<and> float_digits ''5'' = Some 5 \<and> float_digits ''6'' = Some 6"
  by (simp add: float_digits_def str_defs isdigit_def)

theorem first_node_line_wins_witness:
  "scanLines float_digits [''node, B, 5, 6'', ''node, A, 1, 2'', ''node, A, 3, 4''] 0
     (clearModel TrussModel_init)
     = Inr ((clearModel TrussModel_init)
              \<lparr>nodes := [\<lparr>node_name = ''B'',
                          position = \<lparr>pos_x = 5, pos_y = 6, pos_z = 0\<rparr>\<rparr>,
                         \<lparr>node_name = ''A'',
                          position = \<lparr>pos_x = 1, pos_y = 2, pos_z = 0\<rparr>\<rparr>]\<rparr>)
   \<and> (1::nat) < length [''node, B, 5, 6'', ''node, A, 1, 2'', ''node, A, 3, 4'']
   \<and> \<not> names_node ''A'' ([''node, B, 5, 6'', ''node, A, 1, 2'', ''node, A, 3, 4''] ! 0)
   \<and> names_node ''A'' ([''node, B, 5, 6'', ''node, A, 1, 2'', ''node, A, 3, 4''] ! 1)
   \<and> names_node ''A'' ([''node, B, 5, 6'', ''node, A, 1, 2'', ''node, A, 3, 4''] ! 2)
   \<and> filter (\<lambda>n. node_name n = ''A'')
        (nodes ((clearModel TrussModel_init)
              \<lparr>nodes := [\<lparr>node_name = ''B'',
                          position = \<lparr>pos_x = 5, pos_y = 6, pos_z = 0\<rparr>\<rparr>,
                         \<lparr>node_name = ''A'',
                          position = \<lparr>pos_x = 1, pos_y = 2, pos_z = 0\<rparr>\<rparr>]\<rparr>))
      = [\<lparr>node_name = ''A'', position = \<lparr>pos_x = 1, pos_y = 2, pos_z = 0\<rparr>\<rparr>]
   \<and> (\<exists>vx vy.
         float_digits
           (node_fields ([''node, B, 5, 6'', ''node, A, 1, 2'', ''node, A, 3, 4''] ! 1) ! 2)
           = Some vx
       \<and> float_digits
           (node_fields ([''node, B, 5, 6'', ''node, A, 1, 2'', ''node, A, 3, 4''] ! 1) ! 3)
           = Some vy
       \<and> filter (\<lambda>n. node_name n = ''A'')
            (nodes ((clearModel TrussModel_init)
               \<lparr>nodes := [\<lparr>node_name = ''B'',
                           position = \<lparr>pos_x = 5, pos_y = 6, pos_z = 0\<rparr>\<rparr>,
                          \<lparr>node_name = ''A'',
                           position = \<lparr>pos_x = 1, pos_y = 2, pos_z = 0\<rparr>\<rparr>]\<rparr>)) =
           [\<lparr>node_name = ''A'', position = \<lparr>pos_x = vx, pos_y = vy, pos_z = 0\<rparr>\<rparr>])"
proof -
  let ?D = "[''node, B, 5, 6'', ''node, A, 1, 2'', ''node, A, 3, 4'']"
  let ?T = "(clearModel TrussModel_init)
              \<lparr>nodes := [\<lparr>node_name = ''B'',
                          position = \<lparr>pos_x = 5, pos_y = 6, pos_z = 0\<rparr>\<rparr>,
                         \<lparr>node_name = ''A'',
                          position = \<lparr>pos_x = 1, pos_y = 2, pos_z = 0\<rparr>\<rparr>]\<rparr>"
  have l0: "lower ''node, B, 5, 6'' = ''node, b, 5, 6''" by code_simp
  have l1: "lower ''node, A, 1, 2'' = ''node, a, 1, 2''" by code_simp
  have l2: "lower ''node, A, 3, 4'' = ''node, a, 3, 4''" by code_simp
  have h1: "scanLines float_digits ?D 0 (clearModel TrussModel_init) = Inr ?T"
    using float_digits_1_2_5_6
    by (simp add: scanLines.simps str_defs imp_defs clearModel_def TrussModel_init_def l0 l1 l2)
  have h2: "(1::nat) < length ?D" by simp
  have n0: "\<not> names_node ''A'' ''node, B, 5, 6''" by code_simp
  have n1: "names_node ''A'' ''node, A, 1, 2''" by code_simp
  have n2: "names_node ''A'' ''node, A, 3, 4''" by code_simp
  have h0: "\<not> names_node ''A'' (?D ! 0)" using n0 by simp
  have h3: "names_node ''A'' (?D ! 1)" using n1 by simp
  have h3': "names_node ''A'' (?D ! 2)" using n2 by simp
  have h4: "\<forall>k<1::nat. \<not> names_node ''A'' (?D ! k)" using n0 by simp
  have h5: "filter (\<lambda>n. node_name n = ''A'') (nodes ?T)
      = [\<lparr>node_name = ''A'', position = \<lparr>pos_x = 1, pos_y = 2, pos_z = 0\<rparr>\<rparr>]"
    by simp
  from first_node_line_wins [OF h1 h2 h3 h4, THEN conjunct1] h0 h1 h2 h3 h3' h5
  show ?thesis by blast
qed

section \<open>The import starts from a cleared model\<close>

lemma clearModel_const: "clearModel t = clearModel t'"
  by (cases t, cases t') (simp add: clearModel_def)

text \<open>
  C6. The result of an import does not depend on the model it starts from: the links, the
  nodes and the title are emptied and the material values reset (the static factor to 0)
  before the first line is read, so two imports of the same lines from any two models
  agree.
\<close>

theorem import_resets_model:
  "ImportFromFile pf fmt data t view = ImportFromFile pf fmt data t' view
   \<and> links (clearModel t) = [] \<and> nodes (clearModel t) = [] \<and> title (clearModel t) = None
   \<and> material (clearModel t) = \<lparr>uts = None, ys = None, mat_E = None, staticFactor = Some 0\<rparr>"
proof -
  have "ImportFromFile pf fmt data t view = ImportFromFile pf fmt data t' view"
    unfolding ImportFromFile_def using clearModel_const [of t t'] by simp
  then show ?thesis by (simp add: clearModel_def)
qed

section \<open>Links to nodes that are not there yet\<close>

lemma item_take: "j < i \<Longrightarrow> i \<le> length data \<Longrightarrow> item (take i data) j = item data j"
  by (simp add: item_def)

lemma item_update: "i \<noteq> j \<Longrightarrow> item (data[i := x]) j = item data j"
  by (simp add: item_def)

lemma scanLine_take:
  assumes "j < i" and "i \<le> length data"
  shows "scanLine pf (take i data) j t = scanLine pf data j t"
proof -
  note it = item_take [OF assms]
  have "importTitle (take i data) j t = importTitle data j t"
    "importLink (take i data) j t = importLink data j t"
    "importNode pf (take i data) j t = importNode pf data j t"
    "importMaterial pf (take i data) j t = importMaterial pf data j t"
    "importSF pf (take i data) j t = importSF pf data j t"
    by (simp_all add: importTitle_def importLink_def importNode_def importMaterial_def
          importSF_def it)
  with assms show ?thesis by (simp add: scanLine_def Let_def cong: if_cong)
qed

lemma scanLine_update:
  assumes "i \<noteq> j"
  shows "scanLine pf (data[i := x]) j t = scanLine pf data j t"
proof -
  note it = item_update [OF assms]
  have "importTitle (data[i := x]) j t = importTitle data j t"
    "importLink (data[i := x]) j t = importLink data j t"
    "importNode pf (data[i := x]) j t = importNode pf data j t"
    "importMaterial pf (data[i := x]) j t = importMaterial pf data j t"
    "importSF pf (data[i := x]) j t = importSF pf data j t"
    by (simp_all add: importTitle_def importLink_def importNode_def importMaterial_def
          importSF_def it)
  with assms show ?thesis by (simp add: scanLine_def Let_def cong: if_cong)
qed

lemma scanLines_prefix:
  "j \<le> i \<Longrightarrow> i \<le> length data \<Longrightarrow>
   scanLines pf data j t =
     (case scanLines pf (take i data) j t of Inl e \<Rightarrow> Inl e | Inr t' \<Rightarrow> scanLines pf data i t')"
proof (induction pf data j t rule: scanLines.induct)
  case (1 pf data Index t)
  show ?case
  proof (cases "Index = i")
    case True
    then show ?thesis by (simp add: scanLines.simps [of pf "take i data" i t])
  next
    case False
    with "1.prems" have lt: "Index < i" "Index < length data" by simp_all
    show ?thesis
    proof (cases "scanLine pf data Index t")
      case (Inl e)
      with lt "1.prems" show ?thesis
        by (simp add: scanLines.simps [of pf data Index t]
              scanLines.simps [of pf "take i data" Index t] scanLine_take)
    next
      case (Inr t1)
      from lt "1.prems" have "Index + 1 \<le> i" by simp
      from "1.IH" [OF lt(2) Inr this "1.prems"(2)] Inr lt "1.prems" show ?thesis
        by (simp add: scanLines.simps [of pf data Index t]
              scanLines.simps [of pf "take i data" Index t] scanLine_take)
    qed
  qed
qed

lemma scanLines_update:
  "i < j \<Longrightarrow> scanLines pf (data[i := x]) j t = scanLines pf data j t"
proof (induction pf data j t rule: scanLines.induct)
  case (1 pf data Index t)
  show ?case
  proof (cases "Index < length data")
    case True
    show ?thesis
    proof (cases "scanLine pf data Index t")
      case (Inl e)
      with True "1.prems" show ?thesis
        by (simp add: scanLines.simps [of pf data Index t]
              scanLines.simps [of pf "data[i := x]" Index t] scanLine_update)
    next
      case (Inr t1)
      from "1.prems" have "i < Index + 1" by simp
      from "1.IH" [OF True Inr this] Inr True "1.prems" show ?thesis
        by (simp add: scanLines.simps [of pf data Index t]
              scanLines.simps [of pf "data[i := x]" Index t] scanLine_update)
    qed
  next
    case False
    then show ?thesis
      by (simp add: scanLines.simps [of pf data Index t]
              scanLines.simps [of pf "data[i := x]" Index t])
  qed
qed

lemma comment_line: "is_comment ''#''"
  by code_simp

lemma scanLine_comment: "is_comment (data ! j) \<Longrightarrow> scanLine pf data j t = Inr t"
  by (simp add: scanLine_def is_comment_def)

lemma importLink_missing_node:
  assumes "j < length data" and "length (link_fields (data ! j)) \<ge> 4"
    and "\<not> hasNode t (link_fields (data ! j) ! 2) \<or> \<not> hasNode t (link_fields (data ! j) ! 3)"
  shows "importLink data j t = Inr t"
  using assms
  by (auto simp: importLink_def item_def name_token_def link_fields_def Let_def)

text \<open>
  C4. A link line with four or more tokens that names a node absent from the model at the
  moment the line is scanned changes nothing and raises nothing: the scan goes on from
  the next line with the same model, and the whole scan gives what it gives with a
  comment in place of that line, whatever node lines follow.
\<close>

theorem link_to_missing_node_dropped:
  assumes "i < length data"
    and "scanLines pf (take i data) 0 t0 = Inr ti"
    and "is_link_line (data ! i)"
    and "length (link_fields (data ! i)) \<ge> 4"
    and "\<not> hasNode ti (link_fields (data ! i) ! 2) \<or> \<not> hasNode ti (link_fields (data ! i) ! 3)"
  shows "scanLine pf data i ti = Inr ti
       \<and> scanLines pf data 0 t0 = scanLines pf data (Suc i) ti
       \<and> scanLines pf data 0 t0 = scanLines pf (data[i := ''#'']) 0 t0"
proof -
  have step: "scanLine pf data i ti = Inr ti"
    using assms(3) importLink_missing_node [OF assms(1,4,5)] by (simp add: scanLine_link_line)
  from scanLines_prefix [of 0 i data pf t0] assms(1,2)
  have "scanLines pf data 0 t0 = scanLines pf data i ti" by simp
  also have "\<dots> = scanLines pf data (Suc i) ti"
    using assms(1) step by (simp add: scanLines.simps [of pf data i ti])
  finally have a: "scanLines pf data 0 t0 = scanLines pf data (Suc i) ti" .
  let ?d = "data[i := ''#'']"
  have "take i ?d = take i data" by simp
  with scanLines_prefix [of 0 i ?d pf t0] assms(1,2)
  have "scanLines pf ?d 0 t0 = scanLines pf ?d i ti" by simp
  also have "\<dots> = scanLines pf ?d (Suc i) ti"
    using assms(1) comment_line
    by (simp add: scanLines.simps [of pf ?d i ti] scanLine_comment)
  also have "\<dots> = scanLines pf data (Suc i) ti"
    by (simp add: scanLines_update)
  finally have "scanLines pf ?d 0 t0 = scanLines pf data (Suc i) ti" .
  with a step show ?thesis by simp
qed

theorem link_to_missing_node_dropped_witness:
  "(1::nat) < length [''node, A, 0, 0'', ''link L1, A, B'', ''node, B, 3, 4'']
   \<and> scanLines float_digits (take 1 [''node, A, 0, 0'', ''link L1, A, B'', ''node, B, 3, 4'']) 0
         (clearModel TrussModel_init)
       = Inr ((clearModel TrussModel_init)
                \<lparr>nodes := [\<lparr>node_name = ''A'',
                            position = \<lparr>pos_x = 0, pos_y = 0, pos_z = 0\<rparr>\<rparr>]\<rparr>)
   \<and> is_link_line ([''node, A, 0, 0'', ''link L1, A, B'', ''node, B, 3, 4''] ! 1)
   \<and> 4 \<le> length (link_fields ([''node, A, 0, 0'', ''link L1, A, B'', ''node, B, 3, 4''] ! 1))
   \<and> link_fields ([''node, A, 0, 0'', ''link L1, A, B'', ''node, B, 3, 4''] ! 1) ! 3 = ''B''
   \<and> \<not> hasNode ((clearModel TrussModel_init)
                \<lparr>nodes := [\<lparr>node_name = ''A'',
                            position = \<lparr>pos_x = 0, pos_y = 0, pos_z = 0\<rparr>\<rparr>]\<rparr>) ''B''
   \<and> scanLine float_digits [''node, A, 0, 0'', ''link L1, A, B'', ''node, B, 3, 4''] 1
         ((clearModel TrussModel_init)
                \<lparr>nodes := [\<lparr>node_name = ''A'',
                            position = \<lparr>pos_x = 0, pos_y = 0, pos_z = 0\<rparr>\<rparr>]\<rparr>)
       = Inr ((clearModel TrussModel_init)
                \<lparr>nodes := [\<lparr>node_name = ''A'',
                            position = \<lparr>pos_x = 0, pos_y = 0, pos_z = 0\<rparr>\<rparr>]\<rparr>)
   \<and> scanLines float_digits [''node, A, 0, 0'', ''link L1, A, B'', ''node, B, 3, 4''] 0
         (clearModel TrussModel_init)
       = scanLines float_digits [''node, A, 0, 0'', ''#'', ''node, B, 3, 4''] 0
           (clearModel TrussModel_init)
   \<and> scanLines float_digits [''node, A, 0, 0'', ''link L1, A, B'', ''node, B, 3, 4''] 0
         (clearModel TrussModel_init)
       = Inr ((clearModel TrussModel_init)
                \<lparr>nodes := [\<lparr>node_name = ''A'',
                            position = \<lparr>pos_x = 0, pos_y = 0, pos_z = 0\<rparr>\<rparr>,
                           \<lparr>node_name = ''B'',
                            position = \<lparr>pos_x = 3, pos_y = 4, pos_z = 0\<rparr>\<rparr>]\<rparr>)"
proof -
  let ?D = "[''node, A, 0, 0'', ''link L1, A, B'', ''node, B, 3, 4'']"
  let ?t0 = "clearModel TrussModel_init"
  let ?ti = "?t0\<lparr>nodes := [\<lparr>node_name = ''A'',
                            position = \<lparr>pos_x = 0, pos_y = 0, pos_z = 0\<rparr>\<rparr>]\<rparr>"
  have l0: "lower ''node, A, 0, 0'' = ''node, a, 0, 0''" by code_simp
  have l2: "lower ''node, B, 3, 4'' = ''node, b, 3, 4''" by code_simp
  have h1: "(1::nat) < length ?D" by simp
  have h2: "scanLines float_digits (take 1 ?D) 0 ?t0 = Inr ?ti"
    using float_digits_0_3_4
    by (simp add: scanLines.simps str_defs imp_defs clearModel_def TrussModel_init_def l0)
  have k: "is_link_line ''link L1, A, B''" by code_simp
  have f: "link_fields ''link L1, A, B'' = [''link'', ''L1'', ''A'', ''B'']" by code_simp
  have h3: "is_link_line (?D ! 1)" using k by simp
  have h4: "4 \<le> length (link_fields (?D ! 1))" using f by simp
  have h5: "link_fields (?D ! 1) ! 3 = ''B''" using f by simp
  have h6: "\<not> hasNode ?ti ''B''" by (simp add: hasNode_def)
  from h5 h6 have h7: "\<not> hasNode ?ti (link_fields (?D ! 1) ! 2)
                       \<or> \<not> hasNode ?ti (link_fields (?D ! 1) ! 3)" by simp
  note res = link_to_missing_node_dropped [OF h1 h2 h3 h4 h7]
  have c1: "scanLine float_digits ?D 1 ?ti = Inr ?ti" using res by blast
  have upd: "?D[1 := ''#''] = [''node, A, 0, 0'', ''#'', ''node, B, 3, 4'']" by simp
  from res have "scanLines float_digits ?D 0 ?t0
                   = scanLines float_digits (?D[1 := ''#'']) 0 ?t0" by blast
  then have c3: "scanLines float_digits ?D 0 ?t0
              = scanLines float_digits [''node, A, 0, 0'', ''#'', ''node, B, 3, 4''] 0 ?t0"
    by (simp only: upd)
  have c0: "lower ''#'' = ''#''" by code_simp
  have "scanLines float_digits [''node, A, 0, 0'', ''#'', ''node, B, 3, 4''] 0 ?t0
          = Inr (?t0\<lparr>nodes := [\<lparr>node_name = ''A'',
                            position = \<lparr>pos_x = 0, pos_y = 0, pos_z = 0\<rparr>\<rparr>,
                           \<lparr>node_name = ''B'',
                            position = \<lparr>pos_x = 3, pos_y = 4, pos_z = 0\<rparr>\<rparr>]\<rparr>)"
    using float_digits_0_3_4
    by (simp add: scanLines.simps str_defs imp_defs clearModel_def TrussModel_init_def l0 l2 c0)
  with c3 have c4: "scanLines float_digits ?D 0 ?t0
          = Inr (?t0\<lparr>nodes := [\<lparr>node_name = ''A'',
                            position = \<lparr>pos_x = 0, pos_y = 0, pos_z = 0\<rparr>\<rparr>,
                           \<lparr>node_name = ''B'',
                            position = \<lparr>pos_x = 3, pos_y = 4, pos_z = 0\<rparr>\<rparr>]\<rparr>)"
    by simp
  from h1 h2 h3 h4 h5 h6 c1 c3 c4 show ?thesis by blast
qed

end
